theory Spec2Isabelle
  imports Main "HOL-Library.Sublist" "HOL-Library.Multiset"
begin

section \<open>The dfget task manager of the supernode\<close>

text \<open>
  A shallow embedding of \<^verbatim>\<open>supernode/daemon/mgr/dfgettask/manager.go\<close>.
  The manager keeps two maps: \<^verbatim>\<open>dfgetTaskStore\<close>, from \<^verbatim>\<open>cID@taskID\<close> to a pointer
  to a \<^verbatim>\<open>types.DfGetTask\<close>, and \<^verbatim>\<open>ptoc\<close>, from \<^verbatim>\<open>peerID@taskID\<close> to the cID.
  Records are passed and stored by pointer and \<^verbatim>\<open>UpdateStatus\<close> writes through the
  pointer, so the model has an explicit heap from addresses to records.
  Every method takes the state and returns the state it leaves behind together with
  its error result; an error is identified by its cause (the message that
  \<^verbatim>\<open>errors.Wrapf\<close> adds is not modelled).
\<close>

subsection \<open>Errors\<close>

datatype error =
    ErrEmptyValue
  | ErrDataNotFound
  | ErrConvertFailed
  | NilPointerPanic
  | IndexOutOfRangePanic

subsection \<open>Data\<close>

text \<open>
  Modelled from the spec: the declaration of \<^verbatim>\<open>types.DfGetTask\<close> (package apis/types) is
  not among the sources. The record has the fields that the manager reads or writes;
  every field is a Go string. The status constants are the enumeration names of the
  spec's data model (WAITING, SUCCESS, FAILED).
\<close>

record DfGetTask =
  CID :: string
  CallSystem :: string
  Path :: string
  PeerID :: string
  Status :: string
  TaskID :: string

definition DfGetTaskStatusWAITING :: string where
  "DfGetTaskStatusWAITING = ''WAITING''"

definition DfGetTaskStatusSUCCESS :: string where
  "DfGetTaskStatusSUCCESS = ''SUCCESS''"

definition DfGetTaskStatusFAILED :: string where
  "DfGetTaskStatusFAILED = ''FAILED''"

type_synonym addr = nat

text \<open>
  Both maps hold values of type \<^verbatim>\<open>interface{}\<close>; the manager stores a
  \<^verbatim>\<open>*types.DfGetTask\<close> in the one and a string in the other, and asserts the type
  when it reads.
\<close>

datatype val = TaskRef addr | Str string

text \<open>
  The configuration is consulted through two predicates only
  (\<^verbatim>\<open>cfg.IsSuperPID\<close>, \<^verbatim>\<open>cfg.IsSuperCID\<close>); package config is not among the
  sources, so both are parameters.
\<close>

record Config =
  IsSuperPID :: "string \<Rightarrow> bool"
  IsSuperCID :: "string \<Rightarrow> bool"

text \<open>
  The state: the heap of task records, the fields of \<^verbatim>\<open>Manager\<close>, and the three
  metric vectors of \<^verbatim>\<open>metrics\<close>. A metric vector maps its label values to the net
  number of \<^verbatim>\<open>Inc\<close> and \<^verbatim>\<open>Dec\<close> calls it has received. A pointer that the heap
  does not map stands for \<^verbatim>\<open>nil\<close>: reading a field through it panics.
\<close>

record state =
  heap :: "addr \<rightharpoonup> DfGetTask"
  cfg :: Config
  dfgetTaskStore :: "string \<rightharpoonup> val"
  ptoc :: "string \<rightharpoonup> val"
  dfgetTasks :: "string \<times> string \<Rightarrow> int"
  dfgetTasksRegisterCount :: "string \<Rightarrow> int"
  dfgetTasksFailCount :: "string \<Rightarrow> int"

definition Inc :: "('l \<Rightarrow> int) \<Rightarrow> 'l \<Rightarrow> ('l \<Rightarrow> int)" where
  "Inc m l = m(l := m l + 1)"

definition Dec :: "('l \<Rightarrow> int) \<Rightarrow> 'l \<Rightarrow> ('l \<Rightarrow> int)" where
  "Dec m l = m(l := m l - 1)"

definition NewManager :: "Config \<Rightarrow> (addr \<rightharpoonup> DfGetTask) \<Rightarrow> state" where
  "NewManager c h =
     \<lparr>heap = h, cfg = c, dfgetTaskStore = Map.empty, ptoc = Map.empty,
      dfgetTasks = (\<lambda>_. 0), dfgetTasksRegisterCount = (\<lambda>_. 0),
      dfgetTasksFailCount = (\<lambda>_. 0)\<rparr>"

subsection \<open>Library functions\<close>

text \<open>
  Modelled from the spec: \<^verbatim>\<open>stringutils.IsEmptyStr\<close> is not among the sources; a
  required field is rejected when it is empty.
\<close>

definition IsEmptyStr :: "string \<Rightarrow> bool" where
  "IsEmptyStr s = (s = [])"

text \<open>
  Modelled from the spec: the primary store (\<^verbatim>\<open>dutil.Store\<close>) is not among the
  sources. Put is an unconditional upsert, Get fails with NotFound when the key is
  absent, Delete fails with NotFound when the key is absent and removes the entry
  otherwise.
\<close>

definition Store_Put :: "(string \<rightharpoonup> val) \<Rightarrow> string \<Rightarrow> val \<Rightarrow> (string \<rightharpoonup> val)" where
  "Store_Put m k v = m(k \<mapsto> v)"

definition Store_Get :: "(string \<rightharpoonup> val) \<Rightarrow> string \<Rightarrow> error + val" where
  "Store_Get m k = (case m k of None \<Rightarrow> Inl ErrDataNotFound | Some v \<Rightarrow> Inr v)"

definition Store_Delete :: "(string \<rightharpoonup> val) \<Rightarrow> string \<Rightarrow> (string \<rightharpoonup> val) \<times> error option" where
  "Store_Delete m k =
     (case m k of None \<Rightarrow> (m, Some ErrDataNotFound) | Some _ \<Rightarrow> (m(k := None), None))"

text \<open>
  Modelled from the spec: the peer index (\<^verbatim>\<open>syncmap.SyncMap\<close>) is not among the
  sources. Add is an unconditional upsert, GetAsString fails with NotFound when the
  key is absent and with a conversion failure when the value is not a string, Delete
  removes the entry of a key that is present (the manager discards what Delete
  returns). Range calls its function on every entry once, in an order that the map
  does not fix: the order is the list \<open>ks\<close> of the keys, which \<open>Range_order\<close>
  constrains to enumerate the keys without repetition. The keys of both maps are
  strings, so the assertion \<^verbatim>\<open>k.(string)\<close> of the scanning functions cannot fail.
\<close>

definition SyncMap_Add :: "(string \<rightharpoonup> val) \<Rightarrow> string \<Rightarrow> val \<Rightarrow> (string \<rightharpoonup> val)" where
  "SyncMap_Add m k v = m(k \<mapsto> v)"

definition SyncMap_GetAsString :: "(string \<rightharpoonup> val) \<Rightarrow> string \<Rightarrow> error + string" where
  "SyncMap_GetAsString m k =
     (case m k of
        None \<Rightarrow> Inl ErrDataNotFound
      | Some (Str v) \<Rightarrow> Inr v
      | Some (TaskRef _) \<Rightarrow> Inl ErrConvertFailed)"

definition SyncMap_Delete :: "(string \<rightharpoonup> val) \<Rightarrow> string \<Rightarrow> (string \<rightharpoonup> val) \<times> error option" where
  "SyncMap_Delete m k =
     (case m k of None \<Rightarrow> (m, Some ErrDataNotFound) | Some _ \<Rightarrow> (m(k := None), None))"

definition Range_order :: "(string \<rightharpoonup> val) \<Rightarrow> string list \<Rightarrow> bool" where
  "Range_order m ks = (distinct ks \<and> set ks = dom m)"

fun SyncMap_Range :: "('a \<Rightarrow> string \<Rightarrow> error + 'a) \<Rightarrow> 'a \<Rightarrow> string list \<Rightarrow> error + 'a" where
  "SyncMap_Range f acc [] = Inr acc"
| "SyncMap_Range f acc (k # ks) =
     (case f acc k of Inl e \<Rightarrow> Inl e | Inr acc' \<Rightarrow> SyncMap_Range f acc' ks)"

text \<open>
  \<^verbatim>\<open>strings.Split(s, sep)\<close> of the Go library cuts \<open>s\<close> at every occurrence of
  \<open>sep\<close>, leftmost first and without overlap, and returns the pieces; the result of
  a non-empty \<open>sep\<close> has at least one element. With an empty \<open>sep\<close> Go returns the
  characters of \<open>s\<close> one by one (the manager never passes one).
\<close>

function splitOn :: "string \<Rightarrow> string \<Rightarrow> string list" where
  "splitOn sep [] = [[]]"
| "splitOn sep (x # xs) =
     (if sep \<noteq> [] \<and> prefix sep (x # xs)
      then [] # splitOn sep (drop (length sep) (x # xs))
      else (case splitOn sep xs of [] \<Rightarrow> [[x]] | y # ys \<Rightarrow> (x # y) # ys))"
  by pat_completeness auto
termination
  by (relation "measure (\<lambda>(sep, s). length s)") auto

definition strings_Split :: "string \<Rightarrow> string \<Rightarrow> string list" where
  "strings_Split s sep = (if sep = [] then map (\<lambda>c. [c]) s else splitOn sep s)"

subsection \<open>Keys\<close>

definition keyJoinChar :: string where
  "keyJoinChar = ''@''"

definition generateKey :: "string \<Rightarrow> string \<Rightarrow> error + string" where
  "generateKey cID taskID =
     (if IsEmptyStr cID then Inl ErrEmptyValue
      else if IsEmptyStr taskID then Inl ErrEmptyValue
      else Inr (cID @ keyJoinChar @ taskID))"

definition generatePeerKey :: "string \<Rightarrow> string \<Rightarrow> string" where
  "generatePeerKey peerID taskID = peerID @ keyJoinChar @ taskID"

subsection \<open>The methods of the manager\<close>

definition getDfgetTask :: "state \<Rightarrow> string \<Rightarrow> string \<Rightarrow> error + addr" where
  "getDfgetTask s clientID taskID =
     (case generateKey clientID taskID of
        Inl err \<Rightarrow> Inl err
      | Inr key \<Rightarrow>
          (case Store_Get (dfgetTaskStore s) key of
             Inl err \<Rightarrow> Inl err
           | Inr (TaskRef p) \<Rightarrow> Inr p
           | Inr (Str _) \<Rightarrow> Inl ErrConvertFailed))"

definition Add :: "state \<Rightarrow> addr \<Rightarrow> state \<times> error option" where
  "Add s p =
     (case heap s p of
        None \<Rightarrow> (s, Some NilPointerPanic)
      | Some dfgetTask \<Rightarrow>
          if IsEmptyStr (Path dfgetTask) then (s, Some ErrEmptyValue)
          else if IsEmptyStr (PeerID dfgetTask) then (s, Some ErrEmptyValue)
          else
            (case generateKey (CID dfgetTask) (TaskID dfgetTask) of
               Inl err \<Rightarrow> (s, Some err)
             | Inr key \<Rightarrow>
                 let dfgetTask' =
                       (if IsEmptyStr (Status dfgetTask)
                        then dfgetTask\<lparr>Status := DfGetTaskStatusWAITING\<rparr>
                        else dfgetTask);
                     s1 = s\<lparr>heap := (heap s)(p \<mapsto> dfgetTask')\<rparr>;
                     s2 = s1\<lparr>ptoc := SyncMap_Add (ptoc s1)
                             (generatePeerKey (PeerID dfgetTask') (TaskID dfgetTask'))
                             (Str (CID dfgetTask'))\<rparr>;
                     s3 = s2\<lparr>dfgetTaskStore := Store_Put (dfgetTaskStore s2) key (TaskRef p)\<rparr>;
                     s4 = (if \<not> IsSuperPID (cfg s3) (PeerID dfgetTask')
                              \<or> \<not> IsSuperCID (cfg s3) (CID dfgetTask')
                           then s3\<lparr>dfgetTasks := Inc (dfgetTasks s3)
                                      (CallSystem dfgetTask', Status dfgetTask'),
                                   dfgetTasksRegisterCount :=
                                      Inc (dfgetTasksRegisterCount s3) (CallSystem dfgetTask')\<rparr>
                           else s3)
                 in (s4, None)))"

definition Get :: "state \<Rightarrow> string \<Rightarrow> string \<Rightarrow> error + addr" where
  "Get s clientID taskID = getDfgetTask s clientID taskID"

definition GetCIDByPeerIDAndTaskID :: "state \<Rightarrow> string \<Rightarrow> string \<Rightarrow> error + string" where
  "GetCIDByPeerIDAndTaskID s peerID taskID =
     SyncMap_GetAsString (ptoc s) (generatePeerKey peerID taskID)"

text \<open>The function that \<^verbatim>\<open>GetCIDsByTaskID\<close> hands to Range; it never stops the scan.\<close>

definition cidsRangeFunc ::
  "(string \<rightharpoonup> val) \<Rightarrow> string \<Rightarrow> string list \<Rightarrow> string \<Rightarrow> error + string list" where
  "cidsRangeFunc m suffixString result key =
     (if \<not> suffix suffixString key then Inr result
      else (case SyncMap_GetAsString m key of
              Inl err \<Rightarrow> Inr result
            | Inr cid \<Rightarrow> Inr (result @ [cid])))"

definition GetCIDsByTaskID :: "state \<Rightarrow> string list \<Rightarrow> string \<Rightarrow> error + string list" where
  "GetCIDsByTaskID s ks taskID =
     SyncMap_Range (cidsRangeFunc (ptoc s) (keyJoinChar @ taskID)) [] ks"

text \<open>
  The function that \<^verbatim>\<open>GetCIDAndTaskIDsByPeerID\<close> hands to Range. Indexing the
  split result at \<^verbatim>\<open>len(splitResult)-1\<close> panics when the slice is empty.
\<close>

definition taskIDsRangeFunc ::
  "(string \<rightharpoonup> val) \<Rightarrow> string \<Rightarrow> (string \<rightharpoonup> string) \<Rightarrow> string \<Rightarrow> error + (string \<rightharpoonup> string)" where
  "taskIDsRangeFunc m prefixStr result key =
     (if \<not> prefix prefixStr key then Inr result
      else (case SyncMap_GetAsString m key of
              Inl err \<Rightarrow> Inr result
            | Inr cid \<Rightarrow>
                let splitResult = strings_Split key keyJoinChar
                in if splitResult = [] then Inl IndexOutOfRangePanic
                   else Inr (result(cid \<mapsto> splitResult ! (length splitResult - 1)))))"

definition GetCIDAndTaskIDsByPeerID ::
  "state \<Rightarrow> string list \<Rightarrow> string \<Rightarrow> error + (string \<rightharpoonup> string)" where
  "GetCIDAndTaskIDsByPeerID s ks peerID =
     SyncMap_Range (taskIDsRangeFunc (ptoc s) (peerID @ keyJoinChar)) Map.empty ks"

definition Delete :: "state \<Rightarrow> string \<Rightarrow> string \<Rightarrow> state \<times> error option" where
  "Delete s clientID taskID =
     (case generateKey clientID taskID of
        Inl err \<Rightarrow> (s, Some err)
      | Inr key \<Rightarrow>
          (case getDfgetTask s clientID taskID of
             Inl err \<Rightarrow> (s, Some err)
           | Inr p \<Rightarrow>
               (case heap s p of
                  None \<Rightarrow> (s, Some NilPointerPanic)
                | Some dfgetTask \<Rightarrow>
                    let s1 = s\<lparr>ptoc := fst (SyncMap_Delete (ptoc s)
                                 (generatePeerKey (PeerID dfgetTask) (TaskID dfgetTask)))\<rparr>;
                        s2 = (if \<not> IsSuperCID (cfg s1) clientID
                              then s1\<lparr>dfgetTasks := Dec (dfgetTasks s1)
                                         (CallSystem dfgetTask, Status dfgetTask)\<rparr>
                              else s1);
                        (m, err) = Store_Delete (dfgetTaskStore s2) key
                    in (s2\<lparr>dfgetTaskStore := m\<rparr>, err))))"

definition UpdateStatus :: "state \<Rightarrow> string \<Rightarrow> string \<Rightarrow> string \<Rightarrow> state \<times> error option" where
  "UpdateStatus s clientID taskID status =
     (case getDfgetTask s clientID taskID of
        Inl err \<Rightarrow> (s, Some err)
      | Inr p \<Rightarrow>
          (case heap s p of
             None \<Rightarrow> (s, Some NilPointerPanic)
           | Some dfgetTask \<Rightarrow>
               let (s1, dfgetTask') =
                     (if Status dfgetTask \<noteq> DfGetTaskStatusSUCCESS
                      then (s\<lparr>dfgetTasks :=
                                 Inc (Dec (dfgetTasks s) (CallSystem dfgetTask, Status dfgetTask))
                                     (CallSystem dfgetTask, status),
                               heap := (heap s)(p \<mapsto> dfgetTask\<lparr>Status := status\<rparr>)\<rparr>,
                            dfgetTask\<lparr>Status := status\<rparr>)
                      else (s, dfgetTask));
                   s2 = (if Status dfgetTask' = DfGetTaskStatusFAILED
                         then s1\<lparr>dfgetTasksFailCount :=
                                    Inc (dfgetTasksFailCount s1) (CallSystem dfgetTask')\<rparr>
                         else s1)
               in (s2, None)))"

subsection \<open>Sequences of operations and the lockstep invariant\<close>

text \<open>
  A caller allocates its records on the heap and hands the manager a pointer; a
  sequence of calls is a list of operations, run from left to right. An operation
  that fails leaves the state it returns (which is the state it found).
\<close>

datatype op =
    OpAdd addr
  | OpDelete string string
  | OpUpdateStatus string string string

fun step :: "state \<Rightarrow> op \<Rightarrow> state" where
  "step s (OpAdd p) = fst (Add s p)"
| "step s (OpDelete clientID taskID) = fst (Delete s clientID taskID)"
| "step s (OpUpdateStatus clientID taskID status) = fst (UpdateStatus s clientID taskID status)"

fun run :: "state \<Rightarrow> op list \<Rightarrow> state" where
  "run s [] = s"
| "run s (x # xs) = run (step s x) xs"

definition peerKeyOf :: "DfGetTask \<Rightarrow> string" where
  "peerKeyOf r = generatePeerKey (PeerID r) (TaskID r)"

text \<open>
  The invariant of the data model, in three parts: every entry of the primary store
  is a task record whose own peer key holds its CID in the peer index; every entry of
  the peer index is the peer key of a stored task record; and no two entries of the
  primary store have the same peer key.
\<close>

definition records_indexed :: "state \<Rightarrow> bool" where
  "records_indexed s \<longleftrightarrow>
     (\<forall>k v. dfgetTaskStore s k = Some v \<longrightarrow>
        (\<exists>p r. v = TaskRef p \<and> heap s p = Some r
               \<and> ptoc s (peerKeyOf r) = Some (Str (CID r))))"

definition index_backed :: "state \<Rightarrow> bool" where
  "index_backed s \<longleftrightarrow>
     (\<forall>pk v. ptoc s pk = Some v \<longrightarrow>
        (\<exists>k p r. dfgetTaskStore s k = Some (TaskRef p) \<and> heap s p = Some r
               \<and> pk = peerKeyOf r))"

definition peer_keys_unique :: "state \<Rightarrow> bool" where
  "peer_keys_unique s \<longleftrightarrow>
     (\<forall>k k' p p' r r'.
          dfgetTaskStore s k = Some (TaskRef p) \<and> heap s p = Some r
        \<and> dfgetTaskStore s k' = Some (TaskRef p') \<and> heap s p' = Some r'
        \<and> peerKeyOf r = peerKeyOf r' \<longrightarrow> k = k')"

definition lockstep :: "state \<Rightarrow> bool" where
  "lockstep s \<longleftrightarrow> records_indexed s \<and> index_backed s \<and> peer_keys_unique s"

text \<open>
  The registration of a record is unique in a state when its primary key and its peer
  key are both unused, or its primary key holds a record of the same peer key (the
  same client and peer registering the task again).
\<close>

definition unique_registration :: "state \<Rightarrow> DfGetTask \<Rightarrow> bool" where
  "unique_registration s r \<longleftrightarrow>
     (dfgetTaskStore s (CID r @ keyJoinChar @ TaskID r) = None \<and> ptoc s (peerKeyOf r) = None)
   \<or> (\<exists>q r'. dfgetTaskStore s (CID r @ keyJoinChar @ TaskID r) = Some (TaskRef q)
          \<and> heap s q = Some r' \<and> peerKeyOf r' = peerKeyOf r)"

fun op_ok :: "state \<Rightarrow> op \<Rightarrow> bool" where
  "op_ok s (OpAdd p) =
     (case heap s p of
        None \<Rightarrow> True
      | Some r \<Rightarrow> snd (Add s p) \<noteq> None \<or> unique_registration s r)"
| "op_ok s (OpDelete clientID taskID) = True"
| "op_ok s (OpUpdateStatus clientID taskID status) = True"

fun ops_ok :: "state \<Rightarrow> op list \<Rightarrow> bool" where
  "ops_ok s [] = True"
| "ops_ok s (x # xs) = (op_ok s x \<and> ops_ok (step s x) xs)"

subsection \<open>Example data\<close>

text \<open>
  A configuration whose reserved peer is \<open>super\<close> and whose reserved client
  identities start with \<open>cdnnode\<close>, a heap of six records, and the state after the
  first three of them have been added to a new manager.
\<close>

definition ex_cfg :: Config where
  "ex_cfg = \<lparr>IsSuperPID = (\<lambda>p. p = ''super''), IsSuperCID = (\<lambda>c. prefix ''cdnnode'' c)\<rparr>"

definition ex_task :: "string \<Rightarrow> string \<Rightarrow> string \<Rightarrow> string \<Rightarrow> DfGetTask" where
  "ex_task c p t st =
     \<lparr>CID = c, CallSystem = ''sys'', Path = ''/f'', PeerID = p, Status = st, TaskID = t\<rparr>"

definition ex_heap :: "addr \<rightharpoonup> DfGetTask" where
  "ex_heap =
     [10 \<mapsto> ex_task ''c1'' ''p1'' ''t'' [],
      11 \<mapsto> ex_task ''c2'' ''p2'' ''t'' ''SUCCESS'',
      12 \<mapsto> ex_task ''c3'' ''p3'' ''t'' ''RUNNING'',
      13 \<mapsto> ex_task ''c1'' ''p4'' ''t'' [],
      14 \<mapsto> ex_task ''c4'' [] ''t'' [],
      15 \<mapsto> ex_task ''c5'' ''p@q'' ''x@y'' []]"

definition ex_new :: state where
  "ex_new = NewManager ex_cfg ex_heap"

definition ex_state :: state where
  "ex_state = run ex_new [OpAdd 10, OpAdd 11, OpAdd 12]"

text \<open>Records 10 and 13 have the same client and task identity and different peers.\<close>

definition ex_clash :: state where
  "ex_clash = run ex_new [OpAdd 10, OpAdd 13]"

section \<open>Properties\<close>

subsection \<open>Keys and lookups\<close>

lemma generateKey_Inr:
  "generateKey c t = Inr k \<longleftrightarrow> c \<noteq> [] \<and> t \<noteq> [] \<and> k = c @ keyJoinChar @ t"
  by (auto simp: generateKey_def IsEmptyStr_def)

lemma getDfgetTask_Inr:
  "getDfgetTask s c t = Inr p \<longleftrightarrow>
     c \<noteq> [] \<and> t \<noteq> [] \<and> dfgetTaskStore s (c @ keyJoinChar @ t) = Some (TaskRef p)"
  by (auto simp: getDfgetTask_def generateKey_def IsEmptyStr_def Store_Get_def
           split: sum.splits option.splits val.splits)

lemma getDfgetTask_found:
  "c \<noteq> [] \<Longrightarrow> t \<noteq> [] \<Longrightarrow> dfgetTaskStore s (c @ keyJoinChar @ t) = Some (TaskRef p) \<Longrightarrow>
   getDfgetTask s c t = Inr p"
  by (simp add: getDfgetTask_Inr)

lemma getDfgetTask_NotFound:
  "c \<noteq> [] \<Longrightarrow> t \<noteq> [] \<Longrightarrow> dfgetTaskStore s (c @ keyJoinChar @ t) = None \<Longrightarrow>
   getDfgetTask s c t = Inl ErrDataNotFound"
  by (simp add: getDfgetTask_def generateKey_def IsEmptyStr_def Store_Get_def)

subsection \<open>What each method leaves behind\<close>

lemma Add_success:
  assumes "heap s p = Some r" "Path r \<noteq> []" "PeerID r \<noteq> []" "CID r \<noteq> []" "TaskID r \<noteq> []"
  shows "Add s p =
    (let r' = (if Status r = [] then r\<lparr>Status := DfGetTaskStatusWAITING\<rparr> else r);
         s3 = s\<lparr>heap := (heap s)(p \<mapsto> r'),
                ptoc := (ptoc s)(generatePeerKey (PeerID r) (TaskID r) \<mapsto> Str (CID r)),
                dfgetTaskStore := (dfgetTaskStore s)(CID r @ keyJoinChar @ TaskID r \<mapsto> TaskRef p)\<rparr>
     in (if IsSuperPID (cfg s) (PeerID r) \<and> IsSuperCID (cfg s) (CID r) then s3
         else s3\<lparr>dfgetTasks := Inc (dfgetTasks s) (CallSystem r, Status r'),
                 dfgetTasksRegisterCount := Inc (dfgetTasksRegisterCount s) (CallSystem r)\<rparr>,
         None))"
  using assms
  by (simp add: Add_def IsEmptyStr_def generateKey_def SyncMap_Add_def Store_Put_def Let_def)

lemma Add_None_iff:
  "snd (Add s p) = None \<longleftrightarrow>
     (\<exists>r. heap s p = Some r \<and> Path r \<noteq> [] \<and> PeerID r \<noteq> [] \<and> CID r \<noteq> [] \<and> TaskID r \<noteq> [])"
  by (auto simp: Add_def IsEmptyStr_def generateKey_def Let_def split: option.splits)

lemma Add_fail:
  assumes "snd (Add s p) \<noteq> None"
  shows "fst (Add s p) = s"
  using assms
  by (auto simp: Add_def Let_def split: option.splits sum.splits if_splits)

lemma Delete_success:
  assumes "c \<noteq> []" "t \<noteq> []" "dfgetTaskStore s (c @ keyJoinChar @ t) = Some (TaskRef p)"
    "heap s p = Some r"
  shows "Delete s c t =
    (let s1 = s\<lparr>ptoc := (ptoc s)(generatePeerKey (PeerID r) (TaskID r) := None),
                dfgetTaskStore := (dfgetTaskStore s)(c @ keyJoinChar @ t := None)\<rparr>
     in (if IsSuperCID (cfg s) c then s1
         else s1\<lparr>dfgetTasks := Dec (dfgetTasks s) (CallSystem r, Status r)\<rparr>, None))"
proof -
  have g: "getDfgetTask s c t = Inr p"
    using assms by (simp add: getDfgetTask_found)
  have d: "fst (SyncMap_Delete m k) = m(k := None)" for m k
    by (auto simp: SyncMap_Delete_def split: option.splits)
  show ?thesis
    using assms
    by (simp add: Delete_def g d generateKey_def IsEmptyStr_def Store_Delete_def Let_def)
qed

lemma Delete_fail:
  assumes "snd (Delete s c t) \<noteq> None"
  shows "fst (Delete s c t) = s"
proof (cases "generateKey c t")
  case (Inl e)
  then show ?thesis by (simp add: Delete_def)
next
  case (Inr key)
  show ?thesis
  proof (cases "getDfgetTask s c t")
    case (Inl e)
    with Inr show ?thesis by (simp add: Delete_def)
  next
    case g: (Inr p)
    show ?thesis
    proof (cases "heap s p")
      case None
      with Inr g show ?thesis by (simp add: Delete_def)
    next
      case (Some r)
      from g have "c \<noteq> []" "t \<noteq> []"
        "dfgetTaskStore s (c @ keyJoinChar @ t) = Some (TaskRef p)"
        by (simp_all add: getDfgetTask_Inr)
      from Delete_success [OF this Some] assms show ?thesis
        by (simp add: Let_def split: if_splits)
    qed
  qed
qed

lemma UpdateStatus_found:
  assumes "getDfgetTask s c t = Inr p" "heap s p = Some r"
  shows "UpdateStatus s c t st =
    (if Status r \<noteq> DfGetTaskStatusSUCCESS
     then (let s1 = s\<lparr>dfgetTasks := Inc (Dec (dfgetTasks s) (CallSystem r, Status r)) (CallSystem r, st),
                      heap := (heap s)(p \<mapsto> r\<lparr>Status := st\<rparr>)\<rparr>
           in if st = DfGetTaskStatusFAILED
              then s1\<lparr>dfgetTasksFailCount := Inc (dfgetTasksFailCount s) (CallSystem r)\<rparr>
              else s1)
     else s, None)"
  using assms
  by (simp add: UpdateStatus_def Let_def DfGetTaskStatusSUCCESS_def DfGetTaskStatusFAILED_def)

lemma UpdateStatus_fail:
  assumes "snd (UpdateStatus s c t st) \<noteq> None"
  shows "fst (UpdateStatus s c t st) = s"
  using assms
  by (auto simp: UpdateStatus_def Let_def split: sum.splits option.splits prod.splits if_splits)

subsection \<open>Splitting keys and scanning the peer index\<close>

declare splitOn.simps [simp del]

lemma splitOn_Nil: "splitOn sep [] = [[]]"
  by (simp add: splitOn.simps)

lemma splitOn_not_empty: "splitOn sep s \<noteq> []"
proof (induction s)
  case Nil
  show ?case by (simp add: splitOn.simps)
next
  case (Cons x xs)
  then show ?case by (simp add: splitOn.simps split: list.splits)
qed

lemma splitOn_single_Cons:
  "splitOn [c] (x # xs) =
     (if x = c then [] # splitOn [c] xs
      else (case splitOn [c] xs of [] \<Rightarrow> [[x]] | y # ys \<Rightarrow> (x # y) # ys))"
  by (simp add: splitOn.simps)

lemma splitOn_single_append:
  "splitOn [c] (a @ c # b) = splitOn [c] a @ splitOn [c] b"
proof (induction a)
  case Nil
  show ?case by (simp add: splitOn_single_Cons splitOn_Nil)
next
  case (Cons x a)
  obtain y ys where "splitOn [c] a = y # ys"
    using splitOn_not_empty [of "[c]" a] by (cases "splitOn [c] a") auto
  with Cons show ?case by (simp add: splitOn_single_Cons)
qed

lemma splitOn_single_absent:
  "c \<notin> set s \<Longrightarrow> splitOn [c] s = [s]"
  by (induction s) (auto simp: splitOn_single_Cons splitOn_Nil)

lemma strings_Split_not_empty: "sep \<noteq> [] \<Longrightarrow> strings_Split s sep \<noteq> []"
  by (simp add: strings_Split_def splitOn_not_empty)

lemma last_Split_key:
  "last (strings_Split (a @ keyJoinChar @ b) keyJoinChar) = last (strings_Split b keyJoinChar)"
  by (simp add: strings_Split_def keyJoinChar_def splitOn_single_append splitOn_not_empty)

lemma last_Split_peerKey:
  assumes "CHR ''@'' \<notin> set b"
  shows "last (strings_Split (generatePeerKey a b) keyJoinChar) = b"
  using assms
  by (simp add: generatePeerKey_def last_Split_key)
     (simp add: strings_Split_def keyJoinChar_def splitOn_single_absent)

lemma taskIDsRangeFunc_eq:
  "taskIDsRangeFunc m pre acc k =
     Inr (if prefix pre k then
            (case m k of Some (Str cid) \<Rightarrow> acc(cid \<mapsto> last (strings_Split k keyJoinChar))
                       | _ \<Rightarrow> acc)
          else acc)"
  by (simp add: taskIDsRangeFunc_def SyncMap_GetAsString_def Let_def keyJoinChar_def
       strings_Split_def splitOn_not_empty last_conv_nth
       split: option.splits val.splits)

lemma Range_taskIDs:
  "\<exists>res. SyncMap_Range (taskIDsRangeFunc m pre) acc ks = Inr res
     \<and> (\<forall>cid t. res cid = Some t \<longrightarrow>
           acc cid = Some t \<or>
           (\<exists>k\<in>set ks. prefix pre k \<and> m k = Some (Str cid)
                        \<and> t = last (strings_Split k keyJoinChar)))
     \<and> (\<forall>cid. (cid \<in> dom acc \<or> (\<exists>k\<in>set ks. prefix pre k \<and> m k = Some (Str cid)))
           \<longrightarrow> cid \<in> dom res)"
proof (induction ks arbitrary: acc)
  case Nil
  show ?case by auto
next
  case (Cons k ks)
  let ?acc' = "if prefix pre k then
            (case m k of Some (Str cid) \<Rightarrow> acc(cid \<mapsto> last (strings_Split k keyJoinChar))
                       | _ \<Rightarrow> acc)
          else acc"
  from Cons.IH [of ?acc'] obtain res where
    r: "SyncMap_Range (taskIDsRangeFunc m pre) ?acc' ks = Inr res"
    and a: "\<And>cid t. res cid = Some t \<Longrightarrow>
           ?acc' cid = Some t \<or>
           (\<exists>k\<in>set ks. prefix pre k \<and> m k = Some (Str cid)
                        \<and> t = last (strings_Split k keyJoinChar))"
    and b: "\<And>cid. (cid \<in> dom ?acc' \<or> (\<exists>k\<in>set ks. prefix pre k \<and> m k = Some (Str cid)))
           \<Longrightarrow> cid \<in> dom res"
    by blast
  have 1: "SyncMap_Range (taskIDsRangeFunc m pre) acc (k # ks) = Inr res"
    using r by (simp add: taskIDsRangeFunc_eq)
  have 2: "acc cid = Some t \<or>
           (\<exists>k\<in>set (k # ks). prefix pre k \<and> m k = Some (Str cid)
                        \<and> t = last (strings_Split k keyJoinChar))"
    if "res cid = Some t" for cid t
    using a [OF that]
    by (auto split: if_splits option.splits val.splits)
  have 3: "cid \<in> dom res"
    if "cid \<in> dom acc \<or> (\<exists>k\<in>set (k # ks). prefix pre k \<and> m k = Some (Str cid))" for cid
  proof -
    from that have "cid \<in> dom ?acc' \<or> (\<exists>k\<in>set ks. prefix pre k \<and> m k = Some (Str cid))"
      by (auto split: if_splits option.splits val.splits)
    then show ?thesis by (rule b)
  qed
  from 1 2 3 show ?case by blast
qed


lemma cidsRangeFunc_eq:
  "cidsRangeFunc m suf acc k =
     Inr (if suffix suf k then
            (case m k of Some (Str cid) \<Rightarrow> acc @ [cid] | _ \<Rightarrow> acc)
          else acc)"
  by (simp add: cidsRangeFunc_def SyncMap_GetAsString_def split: option.splits val.splits)

lemma Range_cids:
  "\<exists>xs. SyncMap_Range (cidsRangeFunc m suf) acc ks = Inr xs
     \<and> mset xs = mset acc +
          image_mset (\<lambda>k. case m k of Some (Str cid) \<Rightarrow> cid | _ \<Rightarrow> [])
            (filter_mset (\<lambda>k. suffix suf k \<and> (\<exists>cid. m k = Some (Str cid))) (mset ks))"
proof (induction ks arbitrary: acc)
  case Nil
  show ?case by simp
next
  case (Cons k ks)
  show ?case
    using Cons.IH [of "if suffix suf k then
            (case m k of Some (Str cid) \<Rightarrow> acc @ [cid] | _ \<Rightarrow> acc)
          else acc"]
    by (auto simp: cidsRangeFunc_eq split: option.splits val.splits)
qed

lemma Range_order_mset:
  assumes "Range_order m ks" "dom m = set ks'" "distinct ks'"
  shows "mset ks = mset ks'"
  using assms unfolding Range_order_def by (metis set_eq_iff_mset_eq_distinct)

lemma generatePeerKey_inj_peer:
  "generatePeerKey a t = generatePeerKey b t \<longleftrightarrow> a = b"
  by (simp add: generatePeerKey_def)

lemma suffix_generatePeerKey:
  "suffix (keyJoinChar @ t) (generatePeerKey a t)"
  by (simp add: generatePeerKey_def suffix_def)

lemma prefix_generatePeerKey:
  "prefix (a @ keyJoinChar) (generatePeerKey a t)"
  by (simp add: generatePeerKey_def prefix_def)

lemma Add_ptoc:
  assumes "heap s p = Some r" "Path r \<noteq> []" "PeerID r \<noteq> []" "CID r \<noteq> []" "TaskID r \<noteq> []"
  shows "ptoc (fst (Add s p)) = (ptoc s)(generatePeerKey (PeerID r) (TaskID r) \<mapsto> Str (CID r))"
    and "\<And>q. q \<noteq> p \<Longrightarrow> heap (fst (Add s p)) q = heap s q"
  by (simp_all add: Add_success [OF assms] Let_def)

subsection \<open>The invariant is kept\<close>

lemmas lockstep_defs =
  lockstep_def records_indexed_def index_backed_def peer_keys_unique_def

lemma lockstep_NewManager: "lockstep (NewManager c h)"
  by (simp add: lockstep_defs NewManager_def)

text \<open>A change of the heap that keeps the identities of every record keeps the invariant.\<close>

lemma lockstep_heap_status:
  assumes inv: "lockstep s"
    and st: "dfgetTaskStore s' = dfgetTaskStore s" "ptoc s' = ptoc s"
    and h: "\<And>q r. heap s q = Some r \<Longrightarrow> \<exists>x. heap s' q = Some (r\<lparr>Status := x\<rparr>)"
    and h': "\<And>q r'. heap s' q = Some r' \<Longrightarrow> \<exists>r x. heap s q = Some r \<and> r' = r\<lparr>Status := x\<rparr>"
  shows "lockstep s'"
proof -
  have pk: "peerKeyOf (r\<lparr>Status := x\<rparr>) = peerKeyOf r" for r x
    by (simp add: peerKeyOf_def)
  have a: "\<exists>p r. v = TaskRef p \<and> heap s' p = Some r \<and> ptoc s' (peerKeyOf r) = Some (Str (CID r))"
    if "dfgetTaskStore s' k = Some v" for k v
  proof -
    from that inv st obtain p r where "v = TaskRef p" "heap s p = Some r"
      "ptoc s (peerKeyOf r) = Some (Str (CID r))"
      unfolding lockstep_defs by metis
    moreover from h [OF this(2)] obtain x where "heap s' p = Some (r\<lparr>Status := x\<rparr>)" ..
    ultimately show ?thesis using st by (simp add: pk)
  qed
  have b: "\<exists>k p r. dfgetTaskStore s' k = Some (TaskRef p) \<and> heap s' p = Some r \<and> pk' = peerKeyOf r"
    if "ptoc s' pk' = Some v" for pk' v
  proof -
    from that inv st obtain k p r where "dfgetTaskStore s k = Some (TaskRef p)" "heap s p = Some r"
      "pk' = peerKeyOf r"
      unfolding lockstep_defs by metis
    moreover from h [OF this(2)] obtain x where "heap s' p = Some (r\<lparr>Status := x\<rparr>)" ..
    ultimately show ?thesis using st by (metis pk)
  qed
  have c: "k = k'"
    if "dfgetTaskStore s' k = Some (TaskRef p)" "heap s' p = Some r"
       "dfgetTaskStore s' k' = Some (TaskRef p')" "heap s' p' = Some r'"
       "peerKeyOf r = peerKeyOf r'" for k k' p p' r r'
  proof -
    from h' [OF that(2)] obtain r0 x where 1: "heap s p = Some r0" "r = r0\<lparr>Status := x\<rparr>" by blast
    from h' [OF that(4)] obtain r0' x' where 2: "heap s p' = Some r0'" "r' = r0'\<lparr>Status := x'\<rparr>" by blast
    from that(5) 1 2 have "peerKeyOf r0 = peerKeyOf r0'" by (simp add: pk)
    with inv that(1,3) st 1 2 show ?thesis
      unfolding lockstep_defs by metis
  qed
  show ?thesis
    unfolding lockstep_defs using a b c by blast
qed

lemma lockstep_UpdateStatus:
  assumes "lockstep s"
  shows "lockstep (fst (UpdateStatus s c t st))"
proof (cases "snd (UpdateStatus s c t st) = None")
  case False
  then show ?thesis using assms by (simp add: UpdateStatus_fail)
next
  case True
  then obtain p r where g: "getDfgetTask s c t = Inr p" and hp: "heap s p = Some r"
    by (auto simp: UpdateStatus_def split: sum.splits option.splits)
  note u = UpdateStatus_found [OF g hp, of st]
  show ?thesis
  proof (rule lockstep_heap_status [OF assms])
    show "dfgetTaskStore (fst (UpdateStatus s c t st)) = dfgetTaskStore s"
      by (simp add: u Let_def)
    show "ptoc (fst (UpdateStatus s c t st)) = ptoc s"
      by (simp add: u Let_def)
    show "\<exists>x. heap (fst (UpdateStatus s c t st)) q = Some (r'\<lparr>Status := x\<rparr>)"
      if "heap s q = Some r'" for q r'
    proof (cases "q = p")
      case True
      with that hp show ?thesis
        by (auto simp: u Let_def intro: exI [of _ "Status r"])
    next
      case False
      with that show ?thesis
        by (auto simp: u Let_def intro: exI [of _ "Status r'"])
    qed
    show "\<exists>r0 x. heap s q = Some r0 \<and> r' = r0\<lparr>Status := x\<rparr>"
      if "heap (fst (UpdateStatus s c t st)) q = Some r'" for q r'
    proof (cases "q = p")
      case True
      with that hp show ?thesis
        by (auto simp: u Let_def split: if_splits intro: exI [of _ "Status r"])
    next
      case False
      with that have "heap s q = Some r'"
        by (auto simp: u Let_def split: if_splits)
      then show ?thesis
        by (auto intro: exI [of _ "Status r'"])
    qed
  qed
qed

lemma lockstep_register:
  assumes inv: "lockstep s"
    and hp: "heap s p = Some r"
    and u: "unique_registration s r"
    and h: "heap s' = heap s"
    and pt: "ptoc s' = (ptoc s)(peerKeyOf r \<mapsto> Str (CID r))"
    and st: "dfgetTaskStore s' = (dfgetTaskStore s)(CID r @ keyJoinChar @ TaskID r \<mapsto> TaskRef p)"
  shows "lockstep s'"
proof -
  let ?key = "CID r @ keyJoinChar @ TaskID r"
  from inv have i1: "\<And>k v. dfgetTaskStore s k = Some v \<Longrightarrow>
        \<exists>p r. v = TaskRef p \<and> heap s p = Some r \<and> ptoc s (peerKeyOf r) = Some (Str (CID r))"
    and i2: "\<And>pk v. ptoc s pk = Some v \<Longrightarrow>
        \<exists>k p r. dfgetTaskStore s k = Some (TaskRef p) \<and> heap s p = Some r \<and> pk = peerKeyOf r"
    and i3: "\<And>k k' p p' r r'. dfgetTaskStore s k = Some (TaskRef p) \<Longrightarrow> heap s p = Some r \<Longrightarrow>
        dfgetTaskStore s k' = Some (TaskRef p') \<Longrightarrow> heap s p' = Some r' \<Longrightarrow>
        peerKeyOf r = peerKeyOf r' \<Longrightarrow> k = k'"
    unfolding lockstep_defs by blast+
  have other: "peerKeyOf rq \<noteq> peerKeyOf r"
    if "dfgetTaskStore s k = Some (TaskRef q)" "heap s q = Some rq" "k \<noteq> ?key" for k q rq
  proof
    assume e: "peerKeyOf rq = peerKeyOf r"
    from i1 [OF that(1)] that(2) have "ptoc s (peerKeyOf rq) \<noteq> None" by auto
    with u e obtain q' r'' where "dfgetTaskStore s ?key = Some (TaskRef q')"
      "heap s q' = Some r''" "peerKeyOf r'' = peerKeyOf r"
      unfolding unique_registration_def by auto
    from i3 [OF that(1,2) this(1,2)] e this(3) that(3) show False by simp
  qed
  have a: "\<exists>p r. v = TaskRef p \<and> heap s' p = Some r \<and> ptoc s' (peerKeyOf r) = Some (Str (CID r))"
    if "dfgetTaskStore s' k = Some v" for k v
  proof (cases "k = ?key")
    case True
    with that st have "v = TaskRef p" by simp
    moreover have "heap s' p = Some r" using h hp by simp
    moreover have "ptoc s' (peerKeyOf r) = Some (Str (CID r))" using pt by simp
    ultimately show ?thesis by blast
  next
    case False
    with that st have sk: "dfgetTaskStore s k = Some v" by simp
    from i1 [OF sk] obtain q rq where q: "v = TaskRef q" "heap s q = Some rq"
      "ptoc s (peerKeyOf rq) = Some (Str (CID rq))" by blast
    from other [of k q rq] sk q False have "peerKeyOf rq \<noteq> peerKeyOf r" by simp
    with q h pt show ?thesis by simp
  qed
  have b: "\<exists>k p r. dfgetTaskStore s' k = Some (TaskRef p) \<and> heap s' p = Some r \<and> pk = peerKeyOf r"
    if "ptoc s' pk = Some v" for pk v
  proof (cases "pk = peerKeyOf r")
    case True
    with st hp h show ?thesis by auto
  next
    case False
    with that pt have "ptoc s pk = Some v" by simp
    from i2 [OF this] obtain k q rq where q: "dfgetTaskStore s k = Some (TaskRef q)"
      "heap s q = Some rq" "pk = peerKeyOf rq" by blast
    have "k \<noteq> ?key"
    proof
      assume k: "k = ?key"
      with u q(1) obtain r'' where "heap s q = Some r''" "peerKeyOf r'' = peerKeyOf r"
        unfolding unique_registration_def by auto
      with q False show False by simp
    qed
    with q st h show ?thesis by auto
  qed
  have c: "k = k'"
    if "dfgetTaskStore s' k = Some (TaskRef q)" "heap s' q = Some rq"
       "dfgetTaskStore s' k' = Some (TaskRef q')" "heap s' q' = Some rq'"
       "peerKeyOf rq = peerKeyOf rq'" for k k' q q' rq rq'
  proof (cases "k = ?key"; cases "k' = ?key")
    assume "k = ?key" "k' = ?key"
    then show ?thesis by simp
  next
    assume k: "k = ?key" "k' \<noteq> ?key"
    with that st h hp have "rq = r" "dfgetTaskStore s k' = Some (TaskRef q')" "heap s q' = Some rq'"
      by auto
    with other [of k' q' rq'] k that(5) show ?thesis by simp
  next
    assume k: "k \<noteq> ?key" "k' = ?key"
    with that st h hp have "rq' = r" "dfgetTaskStore s k = Some (TaskRef q)" "heap s q = Some rq"
      by auto
    with other [of k q rq] k that(5) show ?thesis by simp
  next
    assume k: "k \<noteq> ?key" "k' \<noteq> ?key"
    with that st h show ?thesis by (auto intro: i3)
  qed
  show ?thesis
    unfolding lockstep_defs using a b c by blast
qed

lemma lockstep_Add:
  assumes inv: "lockstep s" and ok: "op_ok s (OpAdd p)"
  shows "lockstep (fst (Add s p))"
proof (cases "snd (Add s p) = None")
  case False
  then show ?thesis using inv by (simp add: Add_fail)
next
  case True
  then obtain r where hp: "heap s p = Some r"
    and ne: "Path r \<noteq> []" "PeerID r \<noteq> []" "CID r \<noteq> []" "TaskID r \<noteq> []"
    by (auto simp: Add_None_iff)
  from ok hp True have u: "unique_registration s r" by simp
  define r' where "r' = (if Status r = [] then r\<lparr>Status := DfGetTaskStatusWAITING\<rparr> else r)"
  define sh where "sh = s\<lparr>heap := (heap s)(p \<mapsto> r')\<rparr>"
  have r'_id: "peerKeyOf r' = peerKeyOf r" "CID r' = CID r" "TaskID r' = TaskID r"
    by (simp_all add: r'_def peerKeyOf_def)
  have r'_st: "r' = r\<lparr>Status := Status r'\<rparr>"
    by (simp add: r'_def)
  have "lockstep sh"
  proof (rule lockstep_heap_status [OF inv])
    show "dfgetTaskStore sh = dfgetTaskStore s" "ptoc sh = ptoc s"
      by (simp_all add: sh_def)
    show "\<exists>x. heap sh q = Some (rq\<lparr>Status := x\<rparr>)" if "heap s q = Some rq" for q rq
    proof (cases "q = p")
      case True
      with that hp r'_st show ?thesis by (auto simp: sh_def)
    next
      case False
      with that show ?thesis by (auto simp: sh_def intro: exI [of _ "Status rq"])
    qed
    show "\<exists>r0 x. heap s q = Some r0 \<and> rq = r0\<lparr>Status := x\<rparr>" if "heap sh q = Some rq" for q rq
    proof (cases "q = p")
      case True
      with that hp r'_st show ?thesis by (auto simp: sh_def)
    next
      case False
      with that have "heap s q = Some rq" by (simp add: sh_def)
      then show ?thesis by (auto intro: exI [of _ "Status rq"])
    qed
  qed
  moreover have "heap sh p = Some r'"
    by (simp add: sh_def)
  moreover have "unique_registration sh r'"
    using u hp unfolding unique_registration_def r'_id
    by (auto simp: sh_def r'_id)
  moreover have "heap (fst (Add s p)) = heap sh"
    by (simp add: Add_success [OF hp ne] Let_def sh_def r'_def)
  moreover have "ptoc (fst (Add s p)) = (ptoc sh)(peerKeyOf r' \<mapsto> Str (CID r'))"
    by (simp add: Add_success [OF hp ne] Let_def sh_def r'_id) (simp add: peerKeyOf_def)
  moreover have "dfgetTaskStore (fst (Add s p)) =
      (dfgetTaskStore sh)(CID r' @ keyJoinChar @ TaskID r' \<mapsto> TaskRef p)"
    by (simp add: Add_success [OF hp ne] Let_def sh_def r'_id)
  ultimately show ?thesis
    by (rule lockstep_register)
qed

lemma lockstep_Delete:
  assumes inv: "lockstep s"
  shows "lockstep (fst (Delete s c t))"
proof (cases "snd (Delete s c t) = None")
  case False
  then show ?thesis using inv by (simp add: Delete_fail)
next
  case True
  then obtain p r where g: "getDfgetTask s c t = Inr p" and hp: "heap s p = Some r"
    by (auto simp: Delete_def split: sum.splits option.splits)
  let ?key = "c @ keyJoinChar @ t"
  from g have ne: "c \<noteq> []" "t \<noteq> []" and sk: "dfgetTaskStore s ?key = Some (TaskRef p)"
    by (simp_all add: getDfgetTask_Inr)
  note d = Delete_success [OF ne sk hp]
  let ?s' = "fst (Delete s c t)"
  have h: "heap ?s' = heap s"
    and pt: "ptoc ?s' = (ptoc s)(peerKeyOf r := None)"
    and st: "dfgetTaskStore ?s' = (dfgetTaskStore s)(?key := None)"
    by (simp_all add: d Let_def peerKeyOf_def)
  from inv have i1: "\<And>k v. dfgetTaskStore s k = Some v \<Longrightarrow>
        \<exists>p r. v = TaskRef p \<and> heap s p = Some r \<and> ptoc s (peerKeyOf r) = Some (Str (CID r))"
    and i2: "\<And>pk v. ptoc s pk = Some v \<Longrightarrow>
        \<exists>k p r. dfgetTaskStore s k = Some (TaskRef p) \<and> heap s p = Some r \<and> pk = peerKeyOf r"
    and i3: "\<And>k k' p p' r r'. dfgetTaskStore s k = Some (TaskRef p) \<Longrightarrow> heap s p = Some r \<Longrightarrow>
        dfgetTaskStore s k' = Some (TaskRef p') \<Longrightarrow> heap s p' = Some r' \<Longrightarrow>
        peerKeyOf r = peerKeyOf r' \<Longrightarrow> k = k'"
    unfolding lockstep_defs by blast+
  have a: "\<exists>p r. v = TaskRef p \<and> heap ?s' p = Some r \<and> ptoc ?s' (peerKeyOf r) = Some (Str (CID r))"
    if "dfgetTaskStore ?s' k = Some v" for k v
  proof -
    from that st have k: "k \<noteq> ?key" "dfgetTaskStore s k = Some v"
      by (auto split: if_splits)
    from i1 [OF k(2)] obtain q rq where q: "v = TaskRef q" "heap s q = Some rq"
      "ptoc s (peerKeyOf rq) = Some (Str (CID rq))" by blast
    have "peerKeyOf rq \<noteq> peerKeyOf r"
      using i3 [of k q rq ?key p r] k q sk hp by auto
    with q h pt show ?thesis by simp
  qed
  have b: "\<exists>k p r. dfgetTaskStore ?s' k = Some (TaskRef p) \<and> heap ?s' p = Some r \<and> pk = peerKeyOf r"
    if "ptoc ?s' pk = Some v" for pk v
  proof -
    from that pt have k: "pk \<noteq> peerKeyOf r" "ptoc s pk = Some v"
      by (auto split: if_splits)
    from i2 [OF k(2)] obtain k' q rq where q: "dfgetTaskStore s k' = Some (TaskRef q)"
      "heap s q = Some rq" "pk = peerKeyOf rq" by blast
    have "k' \<noteq> ?key"
      using q sk hp k by auto
    with q st h show ?thesis by auto
  qed
  have c: "k = k'"
    if "dfgetTaskStore ?s' k = Some (TaskRef q)" "heap ?s' q = Some rq"
       "dfgetTaskStore ?s' k' = Some (TaskRef q')" "heap ?s' q' = Some rq'"
       "peerKeyOf rq = peerKeyOf rq'" for k k' q q' rq rq'
    using that st h by (auto split: if_splits intro: i3)
  show ?thesis
    unfolding lockstep_defs using a b c by blast
qed

lemma lockstep_step:
  "lockstep s \<Longrightarrow> op_ok s x \<Longrightarrow> lockstep (step s x)"
  by (cases x) (simp_all add: lockstep_Add lockstep_Delete lockstep_UpdateStatus del: op_ok.simps)

lemma lockstep_run:
  "lockstep s \<Longrightarrow> ops_ok s xs \<Longrightarrow> lockstep (run s xs)"
  by (induction xs arbitrary: s) (simp_all add: lockstep_step)

subsection \<open>The example state\<close>

lemmas ex_defs =
  ex_state_def ex_new_def NewManager_def ex_heap_def ex_task_def ex_cfg_def Add_def
  IsEmptyStr_def generateKey_def keyJoinChar_def Store_Put_def SyncMap_Add_def Let_def
  generatePeerKey_def Inc_def DfGetTaskStatusWAITING_def

lemma ex_state_store:
  "dfgetTaskStore ex_state =
     [''c1@t'' \<mapsto> TaskRef 10, ''c2@t'' \<mapsto> TaskRef 11, ''c3@t'' \<mapsto> TaskRef 12]"
  by (simp add: ex_defs)

lemma ex_state_ptoc:
  "ptoc ex_state = [''p1@t'' \<mapsto> Str ''c1'', ''p2@t'' \<mapsto> Str ''c2'', ''p3@t'' \<mapsto> Str ''c3'']"
  by (simp add: ex_defs)

lemma ex_state_heap:
  "heap ex_state = ex_heap(10 \<mapsto> ex_task ''c1'' ''p1'' ''t'' ''WAITING'')"
  by (simp add: ex_defs fun_upd_twist)

lemma ex_state_cfg: "cfg ex_state = ex_cfg"
  by (simp add: ex_defs)

lemma ex_state_metrics:
  "dfgetTasksFailCount ex_state = (\<lambda>_. 0)"
  "dfgetTasksRegisterCount ex_state ''sys'' = 3"
  "dfgetTasks ex_state (''sys'', ''WAITING'') = 1"
  "dfgetTasks ex_state (''sys'', ''SUCCESS'') = 1"
  "dfgetTasks ex_state (''sys'', ''RUNNING'') = 1"
  by (simp_all add: ex_defs)

lemma ex_state_Get:
  "Get ex_state ''c1'' ''t'' = Inr 10"
  "Get ex_state ''c2'' ''t'' = Inr 11"
  "Get ex_state ''c3'' ''t'' = Inr 12"
  by (simp_all add: Get_def getDfgetTask_Inr ex_state_store keyJoinChar_def)

lemma ex_state_records:
  "heap ex_state 10 = Some (ex_task ''c1'' ''p1'' ''t'' ''WAITING'')"
  "heap ex_state 11 = Some (ex_task ''c2'' ''p2'' ''t'' ''SUCCESS'')"
  "heap ex_state 12 = Some (ex_task ''c3'' ''p3'' ''t'' ''RUNNING'')"
  by (simp_all add: ex_state_heap ex_heap_def)

lemma ex_split:
  "strings_Split ''p@q@t'' keyJoinChar = [''p'', ''q'', ''t'']"
  "strings_Split ''p@q@x@y'' keyJoinChar = [''p'', ''q'', ''x'', ''y'']"
  "strings_Split ''p1@t'' keyJoinChar = [''p1'', ''t'']"
  by (simp_all add: strings_Split_def keyJoinChar_def splitOn_single_Cons splitOn_Nil)

lemma ex_clash_state:
  "dfgetTaskStore ex_clash = [''c1@t'' \<mapsto> TaskRef 13]"
  "ptoc ex_clash = [''p1@t'' \<mapsto> Str ''c1'', ''p4@t'' \<mapsto> Str ''c1'']"
  "heap ex_clash 13 = Some (ex_task ''c1'' ''p4'' ''t'' ''WAITING'')"
  by (simp_all add: ex_clash_def ex_defs)

section \<open>The claims\<close>

text \<open>
  C1, as amended. For every stored record whose status is SUCCESS,
  \<^verbatim>\<open>UpdateStatus(client, task, FAILED)\<close> succeeds and changes nothing: the status stays
  SUCCESS, no gauge moves, and the failure counter is not incremented (the counter is
  tested against the status of the record, which is still SUCCESS, not against the
  requested status).
\<close>

theorem UpdateStatus_FAILED_on_SUCCESS:
  assumes "Get s clientID taskID = Inr p"
    and "heap s p = Some r"
    and "Status r = DfGetTaskStatusSUCCESS"
  shows "UpdateStatus s clientID taskID DfGetTaskStatusFAILED = (s, None)"
  using assms
  by (simp add: Get_def UpdateStatus_found)

text \<open>
  C1, witness: in the example state the record of client \<open>c2\<close> has status SUCCESS, and
  the update to FAILED returns the state as it was.
\<close>

theorem UpdateStatus_FAILED_on_SUCCESS_witness:
  "Get ex_state ''c2'' ''t'' = Inr 11
   \<and> heap ex_state 11 = Some (ex_task ''c2'' ''p2'' ''t'' ''SUCCESS'')
   \<and> Status (ex_task ''c2'' ''p2'' ''t'' ''SUCCESS'') = DfGetTaskStatusSUCCESS
   \<and> UpdateStatus ex_state ''c2'' ''t'' DfGetTaskStatusFAILED = (ex_state, None)"
proof -
  have st: "Status (ex_task ''c2'' ''p2'' ''t'' ''SUCCESS'') = DfGetTaskStatusSUCCESS"
    by (simp add: ex_task_def DfGetTaskStatusSUCCESS_def)
  from UpdateStatus_FAILED_on_SUCCESS [OF ex_state_Get(2) ex_state_records(2) st]
  show ?thesis
    by (simp add: ex_state_Get ex_state_records st)
qed

text \<open>
  C1, counterexample to the claim as stated: the record of client \<open>c2\<close> in the example
  state has status SUCCESS and call-system \<open>sys\<close>; after the update to FAILED the
  failure counter of \<open>sys\<close> is what it was, not one more.
\<close>

theorem UpdateStatus_FAILED_on_SUCCESS_counterexample:
  "Get ex_state ''c2'' ''t'' = Inr 11
   \<and> heap ex_state 11 = Some (ex_task ''c2'' ''p2'' ''t'' ''SUCCESS'')
   \<and> Status (ex_task ''c2'' ''p2'' ''t'' ''SUCCESS'') = DfGetTaskStatusSUCCESS
   \<and> CallSystem (ex_task ''c2'' ''p2'' ''t'' ''SUCCESS'') = ''sys''
   \<and> snd (UpdateStatus ex_state ''c2'' ''t'' DfGetTaskStatusFAILED) = None
   \<and> dfgetTasksFailCount (fst (UpdateStatus ex_state ''c2'' ''t'' DfGetTaskStatusFAILED)) ''sys''
       \<noteq> dfgetTasksFailCount ex_state ''sys'' + 1"
proof -
  have g: "getDfgetTask ex_state ''c2'' ''t'' = Inr 11"
    using ex_state_Get(2) by (simp add: Get_def)
  show ?thesis
    by (simp add: UpdateStatus_found [OF g ex_state_records(2)] ex_state_Get ex_state_records)
       (simp add: ex_task_def DfGetTaskStatusSUCCESS_def)
qed

text \<open>
  C2. For a record with non-empty path, peer identity, client identity and task
  identity, \<^verbatim>\<open>Add\<close> succeeds; afterwards \<^verbatim>\<open>Get(client, task)\<close> returns the pointer that
  was added, the record behind it is the added record (an empty status has become
  WAITING, as \<^verbatim>\<open>Add\<close> wrote it through the caller's pointer), and
  \<^verbatim>\<open>GetCIDByPeerIDAndTaskID(peer, task)\<close> returns the record's CID.
\<close>

theorem Add_then_Get:
  assumes "heap s p = Some r"
    and "Path r \<noteq> []" and "PeerID r \<noteq> []" and "CID r \<noteq> []" and "TaskID r \<noteq> []"
  shows "snd (Add s p) = None
       \<and> Get (fst (Add s p)) (CID r) (TaskID r) = Inr p
       \<and> heap (fst (Add s p)) p =
           Some (if Status r = [] then r\<lparr>Status := DfGetTaskStatusWAITING\<rparr> else r)
       \<and> GetCIDByPeerIDAndTaskID (fst (Add s p)) (PeerID r) (TaskID r) = Inr (CID r)"
  using assms(2-5)
  by (simp add: Add_success [OF assms] Let_def Get_def getDfgetTask_Inr
      GetCIDByPeerIDAndTaskID_def SyncMap_GetAsString_def)

text \<open>
  C2, witness: record 10 of the example heap, whose status is empty, added to the new
  manager.
\<close>

theorem Add_then_Get_witness:
  "heap ex_new 10 = Some (ex_task ''c1'' ''p1'' ''t'' [])
   \<and> snd (Add ex_new 10) = None
   \<and> Get (fst (Add ex_new 10)) ''c1'' ''t'' = Inr 10
   \<and> heap (fst (Add ex_new 10)) 10 = Some (ex_task ''c1'' ''p1'' ''t'' ''WAITING'')
   \<and> GetCIDByPeerIDAndTaskID (fst (Add ex_new 10)) ''p1'' ''t'' = Inr ''c1''"
proof -
  have h: "heap ex_new 10 = Some (ex_task ''c1'' ''p1'' ''t'' [])"
    by (simp add: ex_new_def NewManager_def ex_heap_def)
  have f: "Path (ex_task ''c1'' ''p1'' ''t'' []) \<noteq> []" "PeerID (ex_task ''c1'' ''p1'' ''t'' []) \<noteq> []"
    "CID (ex_task ''c1'' ''p1'' ''t'' []) \<noteq> []" "TaskID (ex_task ''c1'' ''p1'' ''t'' []) \<noteq> []"
    by (simp_all add: ex_task_def)
  from Add_then_Get [OF h f] h show ?thesis
    by (simp add: ex_task_def DfGetTaskStatusWAITING_def)
qed

text \<open>
  C3, as amended. From a new manager, over every sequence of Add, Delete and
  UpdateStatus in which each Add that is accepted registers a record whose primary key
  and peer key are both unused, or whose primary key holds a record of the same peer
  key, the invariant holds at the end: every stored task record has its own peer key
  in the peer index, holding its CID; every entry of the peer index is the peer key of
  a stored task record; and no two stored records share a peer key.
\<close>

theorem lockstep_invariant:
  assumes "ops_ok (NewManager c h) ops"
  shows "lockstep (run (NewManager c h) ops)"
  using lockstep_NewManager assms by (rule lockstep_run)

text \<open>
  C3, witness: two records are added, the first is updated, the second is deleted and
  a third is added; every Add finds its keys unused.
\<close>

theorem lockstep_invariant_witness:
  "ops_ok ex_new [OpAdd 10, OpAdd 11, OpUpdateStatus ''c1'' ''t'' ''RUNNING'',
                  OpDelete ''c2'' ''t'', OpAdd 12]
   \<and> lockstep (run ex_new [OpAdd 10, OpAdd 11, OpUpdateStatus ''c1'' ''t'' ''RUNNING'',
                  OpDelete ''c2'' ''t'', OpAdd 12])"
proof -
  have ok: "ops_ok (NewManager ex_cfg ex_heap)
      [OpAdd 10, OpAdd 11, OpUpdateStatus ''c1'' ''t'' ''RUNNING'', OpDelete ''c2'' ''t'', OpAdd 12]"
    by (simp add: ex_defs unique_registration_def peerKeyOf_def UpdateStatus_def Delete_def
        getDfgetTask_def Store_Get_def Store_Delete_def SyncMap_Delete_def Dec_def
        DfGetTaskStatusSUCCESS_def DfGetTaskStatusFAILED_def)
  from lockstep_invariant [OF ok] ok show ?thesis
    by (simp add: ex_new_def)
qed

text \<open>
  C3, counterexample to the claim as stated: after records 10 and 13 (same client and
  task, peers \<open>p1\<close> and \<open>p4\<close>) have been added to a new manager, the primary store
  holds record 13 alone, while the peer index still has the entry of \<open>p1\<close>, which is
  the peer key of no stored record.
\<close>

theorem lockstep_invariant_counterexample:
  "ex_clash = run (NewManager ex_cfg ex_heap) [OpAdd 10, OpAdd 13]
   \<and> dfgetTaskStore ex_clash = [''c1@t'' \<mapsto> TaskRef 13]
   \<and> ptoc ex_clash = [''p1@t'' \<mapsto> Str ''c1'', ''p4@t'' \<mapsto> Str ''c1'']
   \<and> heap ex_clash 13 = Some (ex_task ''c1'' ''p4'' ''t'' ''WAITING'')
   \<and> peerKeyOf (ex_task ''c1'' ''p4'' ''t'' ''WAITING'') = ''p4@t''
   \<and> \<not> index_backed ex_clash
   \<and> \<not> lockstep ex_clash"
proof -
  have pk: "peerKeyOf (ex_task ''c1'' ''p4'' ''t'' ''WAITING'') = ''p4@t''"
    by (simp add: peerKeyOf_def generatePeerKey_def keyJoinChar_def ex_task_def)
  have n: "\<not> index_backed ex_clash"
  proof
    assume "index_backed ex_clash"
    then have "\<forall>pk v. ptoc ex_clash pk = Some v \<longrightarrow>
        (\<exists>k p r. dfgetTaskStore ex_clash k = Some (TaskRef p) \<and> heap ex_clash p = Some r
                 \<and> pk = peerKeyOf r)"
      unfolding index_backed_def by blast
    moreover have "ptoc ex_clash ''p1@t'' = Some (Str ''c1'')"
      by (simp add: ex_clash_state)
    ultimately obtain k p r where "dfgetTaskStore ex_clash k = Some (TaskRef p)"
      "heap ex_clash p = Some r" "''p1@t'' = peerKeyOf r" by blast
    then show False
      by (auto simp: ex_clash_state pk split: if_splits)
  qed
  then have "\<not> lockstep ex_clash"
    by (simp add: lockstep_def)
  moreover have "ex_clash = run (NewManager ex_cfg ex_heap) [OpAdd 10, OpAdd 13]"
    by (simp only: ex_clash_def ex_new_def)
  ultimately show ?thesis
    using n pk ex_clash_state by blast
qed

text \<open>
  C4. When \<^verbatim>\<open>Get(client, task)\<close> finds a record, \<^verbatim>\<open>Delete(client, task)\<close> succeeds, and
  afterwards \<^verbatim>\<open>Get(client, task)\<close> fails with NotFound and
  \<^verbatim>\<open>GetCIDByPeerIDAndTaskID\<close>, asked for the peer and task of the deleted record, fails
  with NotFound.
\<close>

theorem Delete_then_lookups_fail:
  assumes "Get s clientID taskID = Inr p"
    and "heap s p = Some r"
  shows "snd (Delete s clientID taskID) = None
       \<and> Get (fst (Delete s clientID taskID)) clientID taskID = Inl ErrDataNotFound
       \<and> GetCIDByPeerIDAndTaskID (fst (Delete s clientID taskID)) (PeerID r) (TaskID r)
           = Inl ErrDataNotFound"
proof -
  from assms(1) have ne: "clientID \<noteq> []" "taskID \<noteq> []"
    and k: "dfgetTaskStore s (clientID @ keyJoinChar @ taskID) = Some (TaskRef p)"
    by (simp_all add: Get_def getDfgetTask_Inr)
  note d = Delete_success [OF ne k assms(2)]
  show ?thesis
    using ne
    by (simp add: d Let_def Get_def getDfgetTask_NotFound GetCIDByPeerIDAndTaskID_def
        SyncMap_GetAsString_def)
qed

text \<open>C4, witness: the record of client \<open>c2\<close> and peer \<open>p2\<close> in the example state.\<close>

theorem Delete_then_lookups_fail_witness:
  "Get ex_state ''c2'' ''t'' = Inr 11
   \<and> heap ex_state 11 = Some (ex_task ''c2'' ''p2'' ''t'' ''SUCCESS'')
   \<and> snd (Delete ex_state ''c2'' ''t'') = None
   \<and> Get (fst (Delete ex_state ''c2'' ''t'')) ''c2'' ''t'' = Inl ErrDataNotFound
   \<and> GetCIDByPeerIDAndTaskID (fst (Delete ex_state ''c2'' ''t'')) ''p2'' ''t''
       = Inl ErrDataNotFound"
  using Delete_then_lookups_fail [OF ex_state_Get(2) ex_state_records(2)]
  by (simp add: ex_state_Get ex_state_records) (simp add: ex_task_def)

text \<open>
  C5. For non-empty \<open>clientID\<close> and \<open>taskID\<close> under whose key the primary store has
  no entry, \<^verbatim>\<open>Delete\<close> fails with NotFound and returns the state unchanged: both maps,
  the heap and the metrics.
\<close>

theorem Delete_missing_is_noop:
  assumes "generateKey clientID taskID = Inr key"
    and "dfgetTaskStore s key = None"
  shows "Delete s clientID taskID = (s, Some ErrDataNotFound)"
proof -
  from assms have ne: "clientID \<noteq> []" "taskID \<noteq> []"
    and k: "dfgetTaskStore s (clientID @ keyJoinChar @ taskID) = None"
    by (simp_all add: generateKey_Inr)
  have "getDfgetTask s clientID taskID = Inl ErrDataNotFound"
    using ne k by (rule getDfgetTask_NotFound)
  then show ?thesis
    using assms(1) by (simp add: Delete_def)
qed

text \<open>C5, witness: the example state has no record of client \<open>c9\<close>.\<close>

theorem Delete_missing_is_noop_witness:
  "generateKey ''c9'' ''t'' = Inr ''c9@t''
   \<and> dfgetTaskStore ex_state ''c9@t'' = None
   \<and> Delete ex_state ''c9'' ''t'' = (ex_state, Some ErrDataNotFound)"
proof -
  have k: "generateKey ''c9'' ''t'' = Inr ''c9@t''"
    by (simp add: generateKey_def IsEmptyStr_def keyJoinChar_def)
  have n: "dfgetTaskStore ex_state ''c9@t'' = None"
    by (simp add: ex_state_store)
  from Delete_missing_is_noop [OF k n] k n show ?thesis by simp
qed

text \<open>
  C6. For a record whose path, peer identity, client identity or task identity is
  empty, \<^verbatim>\<open>Add\<close> fails with EmptyValue and returns the state unchanged.
\<close>

theorem Add_rejects_empty_fields:
  assumes "heap s p = Some r"
    and "Path r = [] \<or> PeerID r = [] \<or> CID r = [] \<or> TaskID r = []"
  shows "Add s p = (s, Some ErrEmptyValue)"
  using assms
  by (auto simp: Add_def IsEmptyStr_def generateKey_def)

text \<open>C6, witness: record 14 of the example heap has an empty peer identity.\<close>

theorem Add_rejects_empty_fields_witness:
  "heap ex_state 14 = Some (ex_task ''c4'' [] ''t'' [])
   \<and> PeerID (ex_task ''c4'' [] ''t'' []) = []
   \<and> Add ex_state 14 = (ex_state, Some ErrEmptyValue)"
proof -
  have h: "heap ex_state 14 = Some (ex_task ''c4'' [] ''t'' [])"
    by (simp add: ex_state_heap ex_heap_def)
  have e: "PeerID (ex_task ''c4'' [] ''t'' []) = []"
    by (simp add: ex_task_def)
  from Add_rejects_empty_fields [OF h] e h show ?thesis by simp
qed

text \<open>
  C7. When \<^verbatim>\<open>Add\<close> accepts a record, the gauge of (call-system, initial status) and the
  registration counter of the call-system are each one more than before if and only if
  the record's peer identity and client identity are not both reserved; when both are
  reserved the two metric vectors are unchanged, otherwise they change at those labels
  only.
\<close>

theorem Add_metrics:
  assumes "heap s p = Some r"
    and "Add s p = (s', None)"
  shows "((dfgetTasks s' (CallSystem r, if Status r = [] then DfGetTaskStatusWAITING else Status r)
             = dfgetTasks s (CallSystem r, if Status r = [] then DfGetTaskStatusWAITING else Status r) + 1
          \<and> dfgetTasksRegisterCount s' (CallSystem r) = dfgetTasksRegisterCount s (CallSystem r) + 1)
         \<longleftrightarrow> \<not> (IsSuperPID (cfg s) (PeerID r) \<and> IsSuperCID (cfg s) (CID r)))
       \<and> dfgetTasks s' =
           (if IsSuperPID (cfg s) (PeerID r) \<and> IsSuperCID (cfg s) (CID r) then dfgetTasks s
            else Inc (dfgetTasks s)
                   (CallSystem r, if Status r = [] then DfGetTaskStatusWAITING else Status r))
       \<and> dfgetTasksRegisterCount s' =
           (if IsSuperPID (cfg s) (PeerID r) \<and> IsSuperCID (cfg s) (CID r)
            then dfgetTasksRegisterCount s
            else Inc (dfgetTasksRegisterCount s) (CallSystem r))
       \<and> dfgetTasksFailCount s' = dfgetTasksFailCount s"
proof -
  from assms(2) have "snd (Add s p) = None" by simp
  with assms(1) have ne: "Path r \<noteq> []" "PeerID r \<noteq> []" "CID r \<noteq> []" "TaskID r \<noteq> []"
    by (auto simp: Add_None_iff)
  from assms(2) have s': "s' = fst (Add s p)" by simp
  show ?thesis
    unfolding s'
    by (simp add: Add_success [OF assms(1) ne] Let_def Inc_def)
qed

text \<open>
  C7, witness: record 10 of the example heap has a peer identity that is not reserved;
  adding it to the new manager takes both metrics from 0 to 1.
\<close>

theorem Add_metrics_witness:
  "heap ex_new 10 = Some (ex_task ''c1'' ''p1'' ''t'' [])
   \<and> snd (Add ex_new 10) = None
   \<and> \<not> IsSuperPID (cfg ex_new) ''p1''
   \<and> dfgetTasks ex_new (''sys'', ''WAITING'') = 0
   \<and> dfgetTasks (fst (Add ex_new 10)) (''sys'', ''WAITING'') = 1
   \<and> dfgetTasksRegisterCount (fst (Add ex_new 10)) ''sys'' = 1"
proof -
  have h: "heap ex_new 10 = Some (ex_task ''c1'' ''p1'' ''t'' [])"
    by (simp add: ex_new_def NewManager_def ex_heap_def)
  have a: "snd (Add ex_new 10) = None"
    by (simp add: Add_None_iff h) (simp add: ex_task_def)
  then have a': "Add ex_new 10 = (fst (Add ex_new 10), None)"
    by (simp add: prod_eq_iff)
  have c: "\<not> IsSuperPID (cfg ex_new) ''p1''" "dfgetTasks ex_new (''sys'', ''WAITING'') = 0"
    "dfgetTasksRegisterCount ex_new ''sys'' = 0"
    by (simp_all add: ex_new_def NewManager_def ex_cfg_def)
  have f: "PeerID (ex_task ''c1'' ''p1'' ''t'' []) = ''p1''"
    "CallSystem (ex_task ''c1'' ''p1'' ''t'' []) = ''sys''"
    "Status (ex_task ''c1'' ''p1'' ''t'' []) = []"
    by (simp_all add: ex_task_def)
  from Add_metrics [OF h a'] h a c show ?thesis
    by (simp add: f DfGetTaskStatusWAITING_def Inc_def)
qed

text \<open>
  C8. Three records of one task identity \<open>T\<close> and pairwise distinct peer identities
  are added to a new manager. Whatever the order in which Range visits the peer index,
  \<^verbatim>\<open>GetCIDsByTaskID(T)\<close> returns a list whose multiset of elements is the three CIDs.
\<close>

theorem GetCIDsByTaskID_three_records:
  assumes h: "h p1 = Some r1" "h p2 = Some r2" "h p3 = Some r3"
    and T: "TaskID r1 = T" "TaskID r2 = T" "TaskID r3 = T"
    and P: "distinct [PeerID r1, PeerID r2, PeerID r3]"
    and valid: "\<forall>r \<in> {r1, r2, r3}. Path r \<noteq> [] \<and> PeerID r \<noteq> [] \<and> CID r \<noteq> [] \<and> TaskID r \<noteq> []"
    and s: "s = run (NewManager c h) [OpAdd p1, OpAdd p2, OpAdd p3]"
    and ks: "Range_order (ptoc s) ks"
  shows "\<exists>cids. GetCIDsByTaskID s ks T = Inr cids \<and> mset cids = {#CID r1, CID r2, CID r3#}"
proof -
  define s1 where "s1 = fst (Add (NewManager c h) p1)"
  define s2 where "s2 = fst (Add s1 p2)"
  let ?k1 = "generatePeerKey (PeerID r1) T"
  let ?k2 = "generatePeerKey (PeerID r2) T"
  let ?k3 = "generatePeerKey (PeerID r3) T"
  from h P have ne: "p1 \<noteq> p2" "p1 \<noteq> p3" "p2 \<noteq> p3" by auto
  from valid have v1: "Path r1 \<noteq> []" "PeerID r1 \<noteq> []" "CID r1 \<noteq> []" "TaskID r1 \<noteq> []"
    and v2: "Path r2 \<noteq> []" "PeerID r2 \<noteq> []" "CID r2 \<noteq> []" "TaskID r2 \<noteq> []"
    and v3: "Path r3 \<noteq> []" "PeerID r3 \<noteq> []" "CID r3 \<noteq> []" "TaskID r3 \<noteq> []"
    by simp_all
  have h0: "heap (NewManager c h) p1 = Some r1" "ptoc (NewManager c h) = Map.empty"
    "heap (NewManager c h) p2 = Some r2" "heap (NewManager c h) p3 = Some r3"
    using h by (simp_all add: NewManager_def)
  have p1: "ptoc s1 = [?k1 \<mapsto> Str (CID r1)]" and h1: "heap s1 p2 = Some r2" "heap s1 p3 = Some r3"
    using Add_ptoc [OF h0(1) v1] ne h0 T by (simp_all add: s1_def)
  have p2: "ptoc s2 = [?k1 \<mapsto> Str (CID r1), ?k2 \<mapsto> Str (CID r2)]" and h2: "heap s2 p3 = Some r3"
    using Add_ptoc [OF h1(1) v2] ne h1 p1 T by (simp_all add: s2_def)
  have s3: "s = fst (Add s2 p3)"
    by (simp add: s s1_def s2_def)
  have p3: "ptoc s = [?k1 \<mapsto> Str (CID r1), ?k2 \<mapsto> Str (CID r2), ?k3 \<mapsto> Str (CID r3)]"
    using Add_ptoc(1) [OF h2 v3] p2 T by (simp add: s3)
  have dk: "?k1 \<noteq> ?k2" "?k1 \<noteq> ?k3" "?k2 \<noteq> ?k3"
    using P by (simp_all add: generatePeerKey_inj_peer)
  have "dom (ptoc s) = set [?k1, ?k2, ?k3]"
    by (auto simp: p3)
  moreover have "distinct [?k1, ?k2, ?k3]"
    using dk by simp
  ultimately have m: "mset ks = mset [?k1, ?k2, ?k3]"
    by (rule Range_order_mset [OF ks])
  from Range_cids [of "ptoc s" "keyJoinChar @ T" "[]" ks]
  obtain cids where c: "SyncMap_Range (cidsRangeFunc (ptoc s) (keyJoinChar @ T)) [] ks = Inr cids"
    and mc: "mset cids = image_mset (\<lambda>k. case ptoc s k of Some (Str cid) \<Rightarrow> cid | _ \<Rightarrow> [])
            (filter_mset (\<lambda>k. suffix (keyJoinChar @ T) k \<and> (\<exists>cid. ptoc s k = Some (Str cid))) (mset ks))"
    by auto
  have "mset cids = {#CID r1, CID r2, CID r3#}"
    unfolding mc m using dk
    by (simp add: p3 suffix_generatePeerKey)
  with c show ?thesis
    by (simp add: GetCIDsByTaskID_def)
qed

text \<open>
  C8, witness: the example state holds records 10, 11 and 12 of task \<open>t\<close>; visited in
  the order \<open>p3\<close>, \<open>p1\<close>, \<open>p2\<close> the scan returns \<open>c3\<close>, \<open>c1\<close>, \<open>c2\<close>.
\<close>

theorem GetCIDsByTaskID_three_records_witness:
  "Range_order (ptoc ex_state) [''p3@t'', ''p1@t'', ''p2@t'']
   \<and> GetCIDsByTaskID ex_state [''p3@t'', ''p1@t'', ''p2@t''] ''t'' = Inr [''c3'', ''c1'', ''c2'']
   \<and> (\<exists>cids. GetCIDsByTaskID ex_state [''p3@t'', ''p1@t'', ''p2@t''] ''t'' = Inr cids
         \<and> mset cids = {#''c1'', ''c2'', ''c3''#})"
proof -
  let ?r1 = "ex_task ''c1'' ''p1'' ''t'' []"
  let ?r2 = "ex_task ''c2'' ''p2'' ''t'' ''SUCCESS''"
  let ?r3 = "ex_task ''c3'' ''p3'' ''t'' ''RUNNING''"
  have h: "ex_heap 10 = Some ?r1" "ex_heap 11 = Some ?r2" "ex_heap 12 = Some ?r3"
    by (simp_all add: ex_heap_def)
  have T: "TaskID ?r1 = ''t''" "TaskID ?r2 = ''t''" "TaskID ?r3 = ''t''"
    by (simp_all add: ex_task_def)
  have P: "distinct [PeerID ?r1, PeerID ?r2, PeerID ?r3]"
    by (simp add: ex_task_def)
  have v: "\<forall>r \<in> {?r1, ?r2, ?r3}. Path r \<noteq> [] \<and> PeerID r \<noteq> [] \<and> CID r \<noteq> [] \<and> TaskID r \<noteq> []"
    by (simp add: ex_task_def)
  have s: "ex_state = run (NewManager ex_cfg ex_heap) [OpAdd 10, OpAdd 11, OpAdd 12]"
    by (simp add: ex_state_def ex_new_def)
  have ks: "Range_order (ptoc ex_state) [''p3@t'', ''p1@t'', ''p2@t'']"
    by (auto simp: Range_order_def ex_state_ptoc)
  have e: "GetCIDsByTaskID ex_state [''p3@t'', ''p1@t'', ''p2@t''] ''t'' = Inr [''c3'', ''c1'', ''c2'']"
    by (simp add: GetCIDsByTaskID_def cidsRangeFunc_def SyncMap_GetAsString_def ex_state_ptoc
        keyJoinChar_def suffix_def)
  from GetCIDsByTaskID_three_records [OF h T P v s ks] ks e show ?thesis
    by (simp add: ex_task_def)
qed

text \<open>
  C9, as amended. For every peer identity \<open>a\<close> (also one that contains the
  separator) and every task identity \<open>b\<close> that does not contain the separator, the
  last segment of the key of \<open>(a, b)\<close> split on the separator is \<open>b\<close>.
  \<^verbatim>\<open>GetCIDAndTaskIDsByPeerID\<close> never fails; it maps a CID to the last segment of a
  key that has the prefix and holds that CID, every CID of such a key is in the
  result, and a CID held by the key of \<open>(peerID, t')\<close> alone, with \<open>t'\<close> free of
  the separator, is mapped to \<open>t'\<close>.
\<close>

theorem last_segment_is_taskID:
  "(CHR ''@'' \<notin> set b \<longrightarrow> last (strings_Split (generatePeerKey a b) keyJoinChar) = b)
   \<and> (\<exists>res. GetCIDAndTaskIDsByPeerID s ks peerID = Inr res
        \<and> (\<forall>cid t. res cid = Some t \<longrightarrow>
              (\<exists>k\<in>set ks. prefix (peerID @ keyJoinChar) k \<and> ptoc s k = Some (Str cid)
                          \<and> t = last (strings_Split k keyJoinChar)))
        \<and> (\<forall>k\<in>set ks. \<forall>cid. prefix (peerID @ keyJoinChar) k \<and> ptoc s k = Some (Str cid)
              \<longrightarrow> res cid \<noteq> None)
        \<and> (\<forall>cid t'. generatePeerKey peerID t' \<in> set ks
              \<and> ptoc s (generatePeerKey peerID t') = Some (Str cid)
              \<and> CHR ''@'' \<notin> set t'
              \<and> (\<forall>k\<in>set ks. prefix (peerID @ keyJoinChar) k \<and> ptoc s k = Some (Str cid)
                    \<longrightarrow> k = generatePeerKey peerID t')
              \<longrightarrow> res cid = Some t'))"
proof -
  let ?pre = "peerID @ keyJoinChar"
  from Range_taskIDs [of "ptoc s" ?pre Map.empty ks]
  obtain res where r: "GetCIDAndTaskIDsByPeerID s ks peerID = Inr res"
    and v: "\<And>cid t. res cid = Some t \<Longrightarrow>
              \<exists>k\<in>set ks. prefix ?pre k \<and> ptoc s k = Some (Str cid)
                          \<and> t = last (strings_Split k keyJoinChar)"
    and d: "\<And>k cid. k \<in> set ks \<Longrightarrow> prefix ?pre k \<Longrightarrow> ptoc s k = Some (Str cid) \<Longrightarrow>
              cid \<in> dom res"
    unfolding GetCIDAndTaskIDsByPeerID_def by (simp (no_asm_use)) blast
  have u: "res cid = Some t'"
    if k: "generatePeerKey peerID t' \<in> set ks"
      and c: "ptoc s (generatePeerKey peerID t') = Some (Str cid)"
      and t': "CHR ''@'' \<notin> set t'"
      and only: "\<forall>k\<in>set ks. prefix ?pre k \<and> ptoc s k = Some (Str cid)
                    \<longrightarrow> k = generatePeerKey peerID t'"
    for cid t'
  proof -
    from d [OF k prefix_generatePeerKey c] obtain t where t: "res cid = Some t" by auto
    from v [OF t] obtain k' where "k' \<in> set ks" "prefix ?pre k'" "ptoc s k' = Some (Str cid)"
      "t = last (strings_Split k' keyJoinChar)" by blast
    with only have "t = last (strings_Split (generatePeerKey peerID t') keyJoinChar)" by auto
    with t t' show ?thesis by (simp add: last_Split_peerKey)
  qed
  have "CHR ''@'' \<notin> set b \<longrightarrow> last (strings_Split (generatePeerKey a b) keyJoinChar) = b"
    by (simp add: last_Split_peerKey)
  moreover have "\<forall>k\<in>set ks. \<forall>cid. prefix ?pre k \<and> ptoc s k = Some (Str cid) \<longrightarrow> res cid \<noteq> None"
    using d by blast
  ultimately show ?thesis
    using r v u by blast
qed

text \<open>
  C9, witness: the peer identity \<open>p@q\<close> contains the separator and the task identity
  \<open>t\<close> does not; in the example state the scan for peer \<open>p1\<close> maps \<open>c1\<close> to \<open>t\<close>.
\<close>

theorem last_segment_is_taskID_witness:
  "CHR ''@'' \<notin> set ''t''
   \<and> generatePeerKey ''p@q'' ''t'' = ''p@q@t''
   \<and> last (strings_Split (generatePeerKey ''p@q'' ''t'') keyJoinChar) = ''t''
   \<and> (\<exists>res. GetCIDAndTaskIDsByPeerID ex_state [''p3@t'', ''p1@t'', ''p2@t''] ''p1'' = Inr res
         \<and> res ''c1'' = Some ''t'')"
proof -
  have k: "generatePeerKey ''p1'' ''t'' = ''p1@t''" "generatePeerKey ''p@q'' ''t'' = ''p@q@t''"
    by (simp_all add: generatePeerKey_def keyJoinChar_def)
  have only: "\<forall>k\<in>set [''p3@t'', ''p1@t'', ''p2@t''].
      prefix (''p1'' @ keyJoinChar) k \<and> ptoc ex_state k = Some (Str ''c1'') \<longrightarrow> k = ''p1@t''"
    by (simp add: ex_state_ptoc)
  from last_segment_is_taskID [of "''t''" "''p@q''" ex_state "[''p3@t'', ''p1@t'', ''p2@t'']" "''p1''"]
  obtain res where 1: "last (strings_Split (generatePeerKey ''p@q'' ''t'') keyJoinChar) = ''t''"
    and 2: "GetCIDAndTaskIDsByPeerID ex_state [''p3@t'', ''p1@t'', ''p2@t''] ''p1'' = Inr res"
    and 3: "\<And>cid t'. generatePeerKey ''p1'' t' \<in> set [''p3@t'', ''p1@t'', ''p2@t''] \<Longrightarrow>
              ptoc ex_state (generatePeerKey ''p1'' t') = Some (Str cid) \<Longrightarrow>
              CHR ''@'' \<notin> set t' \<Longrightarrow>
              (\<forall>k\<in>set [''p3@t'', ''p1@t'', ''p2@t''].
                  prefix (''p1'' @ keyJoinChar) k \<and> ptoc ex_state k = Some (Str cid)
                    \<longrightarrow> k = generatePeerKey ''p1'' t') \<Longrightarrow>
              res cid = Some t'"
    by (simp (no_asm_use)) blast
  have "res ''c1'' = Some ''t''"
    by (rule 3) (simp_all add: k ex_state_ptoc only)
  with 1 2 k show ?thesis by simp
qed

text \<open>
  C9, counterexample to the claim as stated: the task identity \<open>x@y\<close> is not empty,
  and the last segment of the key of \<open>(p@q, x@y)\<close> is \<open>y\<close>. After record 15 of the
  example heap (peer \<open>p@q\<close>, task \<open>x@y\<close>, CID \<open>c5\<close>) has been added to the new
  manager, the scan for peer \<open>p@q\<close> maps \<open>c5\<close> to \<open>y\<close>.
\<close>

theorem last_segment_is_taskID_counterexample:
  "''p@q'' \<noteq> [] \<and> ''x@y'' \<noteq> []
   \<and> generatePeerKey ''p@q'' ''x@y'' = ''p@q@x@y''
   \<and> last (strings_Split (generatePeerKey ''p@q'' ''x@y'') keyJoinChar) = ''y''
   \<and> ''y'' \<noteq> ''x@y''
   \<and> heap ex_new 15 = Some (ex_task ''c5'' ''p@q'' ''x@y'' [])
   \<and> ptoc (fst (Add ex_new 15)) = [''p@q@x@y'' \<mapsto> Str ''c5'']
   \<and> (case GetCIDAndTaskIDsByPeerID (fst (Add ex_new 15)) [''p@q@x@y''] ''p@q'' of
         Inl e \<Rightarrow> None | Inr res \<Rightarrow> res ''c5'') = Some ''y''"
proof -
  have k: "generatePeerKey ''p@q'' ''x@y'' = ''p@q@x@y''"
    by (simp add: generatePeerKey_def keyJoinChar_def)
  have h: "heap ex_new 15 = Some (ex_task ''c5'' ''p@q'' ''x@y'' [])"
    by (simp add: ex_new_def NewManager_def ex_heap_def)
  have p: "ptoc (fst (Add ex_new 15)) = [''p@q@x@y'' \<mapsto> Str ''c5'']"
    by (simp add: ex_defs)
  have g: "GetCIDAndTaskIDsByPeerID (fst (Add ex_new 15)) [''p@q@x@y''] ''p@q''
      = Inr [''c5'' \<mapsto> ''y'']"
    by (simp add: GetCIDAndTaskIDsByPeerID_def taskIDsRangeFunc_eq p ex_split)
       (simp add: keyJoinChar_def)
  show ?thesis
    by (simp add: k h p g ex_split)
qed

text \<open>
  C10. A call of \<^verbatim>\<open>UpdateStatus\<close>, whatever it returns, leaves the peer index and the
  primary store (its keys and the pointers they hold) as they were, keeps every record
  of the heap up to its status field, and keeps every record but the addressed one
  entirely; a call that fails changes nothing at all.
\<close>

theorem UpdateStatus_frame:
  "ptoc (fst (UpdateStatus s clientID taskID status)) = ptoc s
   \<and> dfgetTaskStore (fst (UpdateStatus s clientID taskID status)) = dfgetTaskStore s
   \<and> cfg (fst (UpdateStatus s clientID taskID status)) = cfg s
   \<and> dom (heap (fst (UpdateStatus s clientID taskID status))) = dom (heap s)
   \<and> (\<forall>q r. heap s q = Some r \<longrightarrow>
         (\<exists>x. heap (fst (UpdateStatus s clientID taskID status)) q = Some (r\<lparr>Status := x\<rparr>))
       \<and> (Get s clientID taskID \<noteq> Inr q \<longrightarrow>
            heap (fst (UpdateStatus s clientID taskID status)) q = Some r))
   \<and> (snd (UpdateStatus s clientID taskID status) \<noteq> None \<longrightarrow>
        fst (UpdateStatus s clientID taskID status) = s)"
proof (cases "snd (UpdateStatus s clientID taskID status) = None")
  case False
  have "\<exists>x. r = r\<lparr>Status := x\<rparr>" for r :: DfGetTask
    by (rule exI [of _ "Status r"]) simp
  with False show ?thesis
    by (simp add: UpdateStatus_fail)
next
  case True
  then obtain p r where g: "getDfgetTask s clientID taskID = Inr p" and hp: "heap s p = Some r"
    by (auto simp: UpdateStatus_def split: sum.splits option.splits)
  note u = UpdateStatus_found [OF g hp, of status]
  have e: "\<exists>x. r' = r'\<lparr>Status := x\<rparr>" for r' :: DfGetTask
    by (rule exI [of _ "Status r'"]) simp
  have 1: "ptoc (fst (UpdateStatus s clientID taskID status)) = ptoc s"
    by (simp add: u Let_def)
  have 2: "dfgetTaskStore (fst (UpdateStatus s clientID taskID status)) = dfgetTaskStore s"
    by (simp add: u Let_def)
  have 3: "cfg (fst (UpdateStatus s clientID taskID status)) = cfg s"
    by (simp add: u Let_def)
  have 4: "dom (heap (fst (UpdateStatus s clientID taskID status))) = dom (heap s)"
    using hp by (auto simp: u Let_def)
  have 5: "(\<exists>x. heap (fst (UpdateStatus s clientID taskID status)) q = Some (r'\<lparr>Status := x\<rparr>))
       \<and> (Get s clientID taskID \<noteq> Inr q \<longrightarrow>
            heap (fst (UpdateStatus s clientID taskID status)) q = Some r')"
    if "heap s q = Some r'" for q r'
    using that hp g e [of r'] by (auto simp: u Let_def Get_def)
  from 1 2 3 4 5 True show ?thesis by simp
qed

text \<open>
  C10, witness: updating the record of client \<open>c1\<close> in the example state keeps both
  maps, changes record 10 in its status at most and leaves record 11 alone.
\<close>

theorem UpdateStatus_frame_witness:
  "ptoc (fst (UpdateStatus ex_state ''c1'' ''t'' ''RUNNING'')) = ptoc ex_state
   \<and> dfgetTaskStore (fst (UpdateStatus ex_state ''c1'' ''t'' ''RUNNING'')) = dfgetTaskStore ex_state
   \<and> (\<exists>x. heap (fst (UpdateStatus ex_state ''c1'' ''t'' ''RUNNING'')) 10
            = Some ((ex_task ''c1'' ''p1'' ''t'' ''WAITING'')\<lparr>Status := x\<rparr>))
   \<and> heap (fst (UpdateStatus ex_state ''c1'' ''t'' ''RUNNING'')) 11
        = Some (ex_task ''c2'' ''p2'' ''t'' ''SUCCESS'')"
  using UpdateStatus_frame [of ex_state "''c1''" "''t''" "''RUNNING''"]
  by (simp add: ex_state_Get ex_state_records)

end
